theory Spec2Isabelle
  imports Main "HOL-Library.AList"
begin

section \<open>The custom ingestion endpoints of \<^verbatim>\<open>stac_fastapi/pgstac/app.py\<close>\<close>

text \<open>
  The module adds two routes under \<^verbatim>\<open>/parse\<close> to the STAC API application:
  \<^verbatim>\<open>POST /parse/file\<close> ingests the report behind one URL inside the request, and
  \<^verbatim>\<open>POST /parse/archive\<close> queues \<^verbatim>\<open>process_archive\<close> as a background task and answers at once.
  Both call into the package \<^verbatim>\<open>stac_catalog\<close> (\<^verbatim>\<open>parser\<close>, \<^verbatim>\<open>gather_reports\<close>, \<^verbatim>\<open>db_util\<close>), whose
  code is not part of the module. Those collaborators are parameters of the model: each is a
  function of its arguments that either returns a value or raises, and everything proved
  below holds for every choice of them.
\<close>

subsection \<open>Data\<close>

text \<open>
  The converter returns an item object of which the module reads the attributes
  \<^verbatim>\<open>id\<close> and \<^verbatim>\<open>properties\<close>. (\<open>id\<close> is HOL's identity function, hence \<open>item_id\<close>.)
\<close>

record 'p stac_item =
  item_id :: string
  properties :: 'p

text \<open>The body and the return value of a route are JSON objects with string values.\<close>

type_synonym json_object = "(string \<times> string) list"

text \<open>
  What the module does to the outside world, in the order it does it: the calls to the
  collaborators with their arguments, the lines printed, and the response handed to the client.
\<close>

datatype ('r, 'p) event =
    Call_iter_urls_from_archive_page string
  | Call_get_filename_from_url string
  | Call_get_file_content string
  | Call_parse_temp_drop string string
  | Call_convert_dropsonde_to_stac_item 'r string
  | Print string
  | Call_add_item_to_catlog "'p stac_item"
  | Send_response json_object

text \<open>
  The collaborators. A call returns \<open>Inr\<close> of its value or \<open>Inl\<close> of the exception it raises.
  \<^item> \<open>iter_urls_from_archive_page\<close> is iterated by a \<^verbatim>\<open>for\<close> loop: it yields finitely many item
    URLs and then either stops (\<open>None\<close>) or raises (\<open>Some e\<close>); a listing that cannot be
    fetched or recognised at all is \<open>([], Some e)\<close>.
  \<^item> \<open>add_item_to_catlog\<close> acts on the catalog store: it returns the store it leaves behind,
    and \<open>Some e\<close> when it raises.
  \<^item> \<open>str_properties\<close> is Python's \<^verbatim>\<open>str\<close> on the properties dictionary, as the f-string applies it.
\<close>

record ('e, 'r, 'p, 'c) env =
  iter_urls_from_archive_page :: "string \<Rightarrow> string list \<times> 'e option"
  get_filename_from_url :: "string \<Rightarrow> 'e + string"
  get_file_content :: "string \<Rightarrow> 'e + string"
  parse_temp_drop :: "string \<Rightarrow> string \<Rightarrow> 'e + 'r"
  convert_dropsonde_to_stac_item :: "'r \<Rightarrow> string \<Rightarrow> 'e + 'p stac_item"
  str_properties :: "'p \<Rightarrow> string"
  add_item_to_catlog :: "'p stac_item \<Rightarrow> 'c \<Rightarrow> 'e option \<times> 'c"

text \<open>The state the module acts on: the catalog store, and the events so far.\<close>

record ('r, 'p, 'c) state =
  catalog :: 'c
  trace :: "('r, 'p) event list"

subsection \<open>Statements that may raise\<close>

text \<open>
  A statement takes the state and gives back the state it leaves, with \<open>Inr\<close> of its value
  or \<open>Inl\<close> of the exception that left it. \<open>then_do\<close> is sequencing: an exception in the
  first statement skips the rest, since the module has no \<^verbatim>\<open>try\<close> around any of them.
\<close>

type_synonym ('a, 'e, 'r, 'p, 'c) stmt =
  "('r, 'p, 'c) state \<Rightarrow> ('e + 'a) \<times> ('r, 'p, 'c) state"

definition log_event :: "('r, 'p) event \<Rightarrow> ('r, 'p, 'c) state \<Rightarrow> ('r, 'p, 'c) state" where
  "log_event ev s = s\<lparr>trace := trace s @ [ev]\<rparr>"

definition returns :: "'a \<Rightarrow> ('a, 'e, 'r, 'p, 'c) stmt" where
  "returns x s = (Inr x, s)"

definition then_do ::
  "('a, 'e, 'r, 'p, 'c) stmt \<Rightarrow> ('a \<Rightarrow> ('b, 'e, 'r, 'p, 'c) stmt) \<Rightarrow> ('b, 'e, 'r, 'p, 'c) stmt" where
  "then_do m f s = (case m s of (Inl e, s') \<Rightarrow> (Inl e, s') | (Inr x, s') \<Rightarrow> f x s')"

definition call :: "('r, 'p) event \<Rightarrow> 'e + 'a \<Rightarrow> ('a, 'e, 'r, 'p, 'c) stmt" where
  "call ev result s = (result, log_event ev s)"

definition print :: "string \<Rightarrow> (unit, 'e, 'r, 'p, 'c) stmt" where
  "print line s = (Inr (), log_event (Print line) s)"

definition call_add_item_to_catlog ::
  "('e, 'r, 'p, 'c) env \<Rightarrow> 'p stac_item \<Rightarrow> (unit, 'e, 'r, 'p, 'c) stmt" where
  "call_add_item_to_catlog env stac_item s =
     (case add_item_to_catlog env stac_item (catalog s) of
        (raised, catalog') \<Rightarrow>
          (case raised of None \<Rightarrow> Inr () | Some e \<Rightarrow> Inl e,
           log_event (Call_add_item_to_catlog stac_item) (s\<lparr>catalog := catalog'\<rparr>)))"

subsection \<open>The two routes and the background task\<close>

text \<open>
  Lines 213 to 219 of the module, and again lines 224 to 230 with \<^verbatim>\<open>item_url\<close> for \<^verbatim>\<open>url\<close>:
  file name, content, report, item, two printed lines, catalog write.
\<close>

definition ingest_stages ::
  "('e, 'r, 'p, 'c) env \<Rightarrow> string \<Rightarrow> ('p stac_item, 'e, 'r, 'p, 'c) stmt" where
  "ingest_stages env url =
     then_do (call (Call_get_filename_from_url url) (get_filename_from_url env url))
       (\<lambda>filename.
     then_do (call (Call_get_file_content url) (get_file_content env url))
       (\<lambda>file_content.
     then_do (call (Call_parse_temp_drop file_content filename)
                (parse_temp_drop env file_content filename))
       (\<lambda>dropsonde_report.
     then_do (call (Call_convert_dropsonde_to_stac_item dropsonde_report url)
                (convert_dropsonde_to_stac_item env dropsonde_report url))
       (\<lambda>stac_item.
     then_do (print (''STAC Item ID: '' @ item_id stac_item))
       (\<lambda>_.
     then_do (print (''STAC Item Properties: '' @ str_properties env (properties stac_item)))
       (\<lambda>_.
     then_do (call_add_item_to_catlog env stac_item)
       (\<lambda>_.
     returns stac_item)))))))"

text \<open>\<^verbatim>\<open>POST /parse/file\<close>: the first \<^verbatim>\<open>parse_report\<close> of the module.\<close>

definition parse_report_file ::
  "('e, 'r, 'p, 'c) env \<Rightarrow> string \<Rightarrow> (json_object, 'e, 'r, 'p, 'c) stmt" where
  "parse_report_file env url =
     then_do (ingest_stages env url)
       (\<lambda>stac_item.
     returns [(''stac_item_id'', item_id stac_item),
              (''detail'', ''STAC item added to the catalog successfully.'')])"

text \<open>The body of the \<^verbatim>\<open>for\<close> loop of \<^verbatim>\<open>process_archive\<close>, over the URLs the iterator yields.\<close>

fun for_item_url ::
  "('e, 'r, 'p, 'c) env \<Rightarrow> string list \<Rightarrow> (unit, 'e, 'r, 'p, 'c) stmt" where
  "for_item_url env [] s = (Inr (), s)"
| "for_item_url env (item_url # rest) s =
     (case ingest_stages env item_url s of
        (Inl e, s') \<Rightarrow> (Inl e, s')
      | (Inr _, s') \<Rightarrow> for_item_url env rest s')"

text \<open>
  \<^verbatim>\<open>process_archive\<close>: the loop runs over what the iterator yields; when the iterator itself
  raises after its last URL, that exception leaves the function too.
\<close>

definition process_archive ::
  "('e, 'r, 'p, 'c) env \<Rightarrow> string \<Rightarrow> (unit, 'e, 'r, 'p, 'c) stmt" where
  "process_archive env url s =
     (case iter_urls_from_archive_page env url of
        (item_urls, stop) \<Rightarrow>
          (case for_item_url env item_urls (log_event (Call_iter_urls_from_archive_page url) s) of
             (Inl e, s') \<Rightarrow> (Inl e, s')
           | (Inr _, s') \<Rightarrow> (case stop of None \<Rightarrow> Inr () | Some e \<Rightarrow> Inl e, s')))"

text \<open>
  \<^verbatim>\<open>POST /parse/archive\<close>: the second \<^verbatim>\<open>parse_report\<close>. \<^verbatim>\<open>background_tasks.add_task\<close> appends
  the task to the request's task list; the route returns its dictionary.
\<close>

datatype task = Process_archive string

definition parse_report_archive :: "string \<Rightarrow> task list \<Rightarrow> json_object \<times> task list" where
  "parse_report_archive url background_tasks =
     ([(''detail'', ''Processing message archive '' @ url @ ''!'')],
      background_tasks @ [Process_archive url])"

text \<open>
  Modelled from the spec: the framework that serves a request and runs its background tasks
  is not part of the module. The specification has the trigger hand the caller an immediate
  acknowledgment and the archive ingestion run afterwards as a detached background unit of
  work, its failures going to the log and never to the caller. So a request to
  \<^verbatim>\<open>/parse/archive\<close> runs the route with an empty task list, sends the route's return value
  as the response, and then runs the queued tasks one after the other; an exception in a task
  ends the run of the tasks. The result is the response, what the tasks ended with (for the
  log), and the final state.
\<close>

fun run_task :: "('e, 'r, 'p, 'c) env \<Rightarrow> task \<Rightarrow> (unit, 'e, 'r, 'p, 'c) stmt" where
  "run_task env (Process_archive url) s = process_archive env url s"

fun run_tasks :: "('e, 'r, 'p, 'c) env \<Rightarrow> task list \<Rightarrow> (unit, 'e, 'r, 'p, 'c) stmt" where
  "run_tasks env [] s = (Inr (), s)"
| "run_tasks env (t # ts) s =
     (case run_task env t s of
        (Inl e, s') \<Rightarrow> (Inl e, s')
      | (Inr _, s') \<Rightarrow> run_tasks env ts s')"

definition post_parse_archive ::
  "('e, 'r, 'p, 'c) env \<Rightarrow> string \<Rightarrow> ('r, 'p, 'c) state
     \<Rightarrow> json_object \<times> ('e + unit) \<times> ('r, 'p, 'c) state" where
  "post_parse_archive env url s =
     (case parse_report_archive url [] of
        (response, background_tasks) \<Rightarrow>
          (response, run_tasks env background_tasks (log_event (Send_response response) s)))"

subsection \<open>The item made of a URL\<close>

text \<open>
  The four calls that come before the catalog write, without their events: the item the
  collaborators make of a URL, or the exception of the first of them that raises.
\<close>

definition item_of_url :: "('e, 'r, 'p, 'c) env \<Rightarrow> string \<Rightarrow> 'e + 'p stac_item" where
  "item_of_url env url =
     (case get_filename_from_url env url of
        Inl e \<Rightarrow> Inl e
      | Inr filename \<Rightarrow>
          (case get_file_content env url of
             Inl e \<Rightarrow> Inl e
           | Inr file_content \<Rightarrow>
               (case parse_temp_drop env file_content filename of
                  Inl e \<Rightarrow> Inl e
                | Inr dropsonde_report \<Rightarrow>
                    convert_dropsonde_to_stac_item env dropsonde_report url)))"

text \<open>The items made of a list of URLs, in the order of the list; a URL that fails makes none.\<close>

definition items_made :: "('e, 'r, 'p, 'c) env \<Rightarrow> string list \<Rightarrow> 'p stac_item list" where
  "items_made env us =
     concat (map (\<lambda>u. case item_of_url env u of Inl e \<Rightarrow> [] | Inr it \<Rightarrow> [it]) us)"

text \<open>
  The events of the stage chain for one URL, up to and including the call that raises; the
  call of the catalog writer is an event whether the writer accepts the item or not.
\<close>

definition stage_events :: "('e, 'r, 'p, 'c) env \<Rightarrow> string \<Rightarrow> ('r, 'p) event list" where
  "stage_events env url =
     (case get_filename_from_url env url of
        Inl e \<Rightarrow> [Call_get_filename_from_url url]
      | Inr filename \<Rightarrow>
     (case get_file_content env url of
        Inl e \<Rightarrow> [Call_get_filename_from_url url, Call_get_file_content url]
      | Inr file_content \<Rightarrow>
     (case parse_temp_drop env file_content filename of
        Inl e \<Rightarrow> [Call_get_filename_from_url url, Call_get_file_content url,
                  Call_parse_temp_drop file_content filename]
      | Inr dropsonde_report \<Rightarrow>
     (case convert_dropsonde_to_stac_item env dropsonde_report url of
        Inl e \<Rightarrow> [Call_get_filename_from_url url, Call_get_file_content url,
                  Call_parse_temp_drop file_content filename,
                  Call_convert_dropsonde_to_stac_item dropsonde_report url]
      | Inr stac_item \<Rightarrow>
          [Call_get_filename_from_url url, Call_get_file_content url,
           Call_parse_temp_drop file_content filename,
           Call_convert_dropsonde_to_stac_item dropsonde_report url,
           Print (''STAC Item ID: '' @ item_id stac_item),
           Print (''STAC Item Properties: '' @ str_properties env (properties stac_item)),
           Call_add_item_to_catlog stac_item]))))"

text \<open>The catalog after the writer has been called on a list of items, one after the other.\<close>

definition catalog_after :: "('e, 'r, 'p, 'c) env \<Rightarrow> 'p stac_item list \<Rightarrow> 'c \<Rightarrow> 'c" where
  "catalog_after env items c = fold (\<lambda>stac_item c'. snd (add_item_to_catlog env stac_item c')) items c"

subsection \<open>Views of a trace\<close>

text \<open>The item URLs whose ingestion was started, and the items handed to the catalog writer.\<close>

fun started_urls :: "('r, 'p) event list \<Rightarrow> string list" where
  "started_urls [] = []"
| "started_urls (Call_get_filename_from_url u # evs) = u # started_urls evs"
| "started_urls (_ # evs) = started_urls evs"

fun written_items :: "('r, 'p) event list \<Rightarrow> 'p stac_item list" where
  "written_items [] = []"
| "written_items (Call_add_item_to_catlog it # evs) = it # written_items evs"
| "written_items (_ # evs) = written_items evs"

fun item_work :: "('r, 'p) event \<Rightarrow> bool" where
  "item_work (Call_iter_urls_from_archive_page _) = False"
| "item_work (Send_response _) = False"
| "item_work _ = True"

subsection \<open>The catalog writer\<close>

text \<open>
  Modelled from the spec: \<^verbatim>\<open>db_util.add_item_to_catlog\<close>, the Catalog Writer, is imported from
  \<^verbatim>\<open>stac_catalog\<close> and its code is missing. The specification gives it the contract
  \<^verbatim>\<open>upsert(item) -> identifier\<close>: it inserts the item under its identifier when the identifier
  is absent and replaces the record when it is present (last write wins, never a second
  record), and it fails with a storage error on connectivity or constraint violations,
  leaving the catalog as it was. The catalog is the list of its records, keyed by identifier;
  \<open>storage_fault\<close> says when the store refuses a write, and with which exception.
\<close>

type_synonym 'p catalog_records = "(string \<times> 'p stac_item) list"

definition upsert ::
  "('p stac_item \<Rightarrow> 'p catalog_records \<Rightarrow> 'e option)
     \<Rightarrow> 'p stac_item \<Rightarrow> 'p catalog_records \<Rightarrow> 'e option \<times> 'p catalog_records" where
  "upsert storage_fault item records =
     (case storage_fault item records of
        Some e \<Rightarrow> (Some e, records)
      | None \<Rightarrow> (None, AList.update (item_id item) item records))"

definition records_with_id :: "string \<Rightarrow> 'p catalog_records \<Rightarrow> 'p catalog_records" where
  "records_with_id i records = filter (\<lambda>record. fst record = i) records"

subsection \<open>A small world to run the module in\<close>

text \<open>
  Concrete collaborators for the worked examples. The exceptions carry the names of the
  specification's error taxonomy. The remote site \<^verbatim>\<open>x\<close> serves three well-formed reports
  \<^verbatim>\<open>a.dat\<close>, \<^verbatim>\<open>b.dat\<close>, \<^verbatim>\<open>c.dat\<close> and a malformed one, \<^verbatim>\<open>bad.dat\<close>; it has the listings
  \<^verbatim>\<open>x/all\<close> (the three good reports), \<^verbatim>\<open>x/mixed\<close> (the malformed report between two good
  ones) and \<^verbatim>\<open>x/empty\<close> (no report); every other URL cannot be fetched. The parser accepts
  content that starts with \<^verbatim>\<open>sonde\<close>, the report is named after the file, the item after the
  report, and the catalog is a store of records that never refuses a write.
\<close>

datatype exn = FetchError | ListingFormatError | MalformedReportError | ConversionError
  | StorageError

definition basename :: "string \<Rightarrow> string" where
  "basename url = rev (takeWhile (\<lambda>c. c \<noteq> CHR ''/'') (rev url))"

definition ex_listing :: "string \<Rightarrow> string list \<times> exn option" where
  "ex_listing url =
     (if url = ''x/all'' then ([''x/a.dat'', ''x/b.dat'', ''x/c.dat''], None)
      else if url = ''x/mixed'' then ([''x/a.dat'', ''x/bad.dat'', ''x/c.dat''], None)
      else if url = ''x/empty'' then ([], None)
      else ([], Some FetchError))"

definition ex_content :: "string \<Rightarrow> exn + string" where
  "ex_content url =
     (if url \<in> set [''x/a.dat'', ''x/b.dat'', ''x/c.dat''] then Inr (''sonde '' @ basename url)
      else if url = ''x/bad.dat'' then Inr ''garbage''
      else Inl FetchError)"

definition ex_parse :: "string \<Rightarrow> string \<Rightarrow> exn + string" where
  "ex_parse file_content filename =
     (if take 5 file_content = ''sonde'' then Inr filename else Inl MalformedReportError)"

definition ex_convert :: "string \<Rightarrow> string \<Rightarrow> exn + json_object stac_item" where
  "ex_convert report url = Inr \<lparr>item_id = report, properties = [(''source'', url)]\<rparr>"

definition ex_str :: "json_object \<Rightarrow> string" where
  "ex_str props = concat (map (\<lambda>(k, v). k @ '': '' @ v @ ''; '') props)"

definition ex_env :: "(exn, string, json_object, json_object catalog_records) env" where
  "ex_env =
     \<lparr>iter_urls_from_archive_page = ex_listing,
      get_filename_from_url = (\<lambda>url. Inr (basename url)),
      get_file_content = ex_content,
      parse_temp_drop = ex_parse,
      convert_dropsonde_to_stac_item = ex_convert,
      str_properties = ex_str,
      add_item_to_catlog = upsert (\<lambda>_ _. None)\<rparr>"

text \<open>The same world with a store that refuses the item \<^verbatim>\<open>b.dat\<close>.\<close>

definition ex_refusing_env :: "(exn, string, json_object, json_object catalog_records) env" where
  "ex_refusing_env =
     ex_env\<lparr>add_item_to_catlog :=
       upsert (\<lambda>stac_item _. if item_id stac_item = ''b.dat'' then Some StorageError else None)\<rparr>"

definition ex_start :: "(string, json_object, json_object catalog_records) state" where
  "ex_start = \<lparr>catalog = [], trace = []\<rparr>"

section \<open>Properties\<close>

subsection \<open>One item, and the loop over the items\<close>

text \<open>The stage chain, statement by statement: where it can end, and with which events.\<close>

lemma ingest_stages_unfold:
  "ingest_stages env url s =
     (case get_filename_from_url env url of
        Inl e \<Rightarrow> (Inl e, s\<lparr>trace := trace s @ [Call_get_filename_from_url url]\<rparr>)
      | Inr filename \<Rightarrow>
     (case get_file_content env url of
        Inl e \<Rightarrow> (Inl e, s\<lparr>trace := trace s @ [Call_get_filename_from_url url, Call_get_file_content url]\<rparr>)
      | Inr file_content \<Rightarrow>
     (case parse_temp_drop env file_content filename of
        Inl e \<Rightarrow> (Inl e, s\<lparr>trace := trace s @ [Call_get_filename_from_url url, Call_get_file_content url,
                                   Call_parse_temp_drop file_content filename]\<rparr>)
      | Inr dropsonde_report \<Rightarrow>
     (case convert_dropsonde_to_stac_item env dropsonde_report url of
        Inl e \<Rightarrow> (Inl e, s\<lparr>trace := trace s @ [Call_get_filename_from_url url, Call_get_file_content url,
                                   Call_parse_temp_drop file_content filename,
                                   Call_convert_dropsonde_to_stac_item dropsonde_report url]\<rparr>)
      | Inr stac_item \<Rightarrow>
     (case add_item_to_catlog env stac_item (catalog s) of
        (raised, catalog') \<Rightarrow>
          (case raised of None \<Rightarrow> Inr stac_item | Some e \<Rightarrow> Inl e,
           \<lparr>catalog = catalog',
            trace = trace s @ [Call_get_filename_from_url url, Call_get_file_content url,
                                   Call_parse_temp_drop file_content filename,
                                   Call_convert_dropsonde_to_stac_item dropsonde_report url,
                                   Print (''STAC Item ID: '' @ item_id stac_item),
                                   Print (''STAC Item Properties: '' @ str_properties env (properties stac_item)),
                                   Call_add_item_to_catlog stac_item]\<rparr>))))))"
  by (simp add: ingest_stages_def then_do_def call_def log_event_def returns_def print_def
        call_add_item_to_catlog_def split: sum.splits prod.splits option.splits)

lemma started_urls_append: "started_urls (xs @ ys) = started_urls xs @ started_urls ys"
  by (induction xs rule: started_urls.induct) simp_all

lemma written_items_append: "written_items (xs @ ys) = written_items xs @ written_items ys"
  by (induction xs rule: written_items.induct) simp_all

text \<open>What one item adds to the trace.\<close>

lemma ingest_stages_written:
  "written_items (trace (snd (ingest_stages env u s))) =
     written_items (trace s) @ (case item_of_url env u of Inl e \<Rightarrow> [] | Inr it \<Rightarrow> [it])"
  by (simp add: ingest_stages_unfold item_of_url_def written_items_append
        split: sum.splits prod.splits)

lemma ingest_stages_item_fails:
  "item_of_url env u = Inl e \<Longrightarrow>
     fst (ingest_stages env u s) = Inl e \<and> catalog (snd (ingest_stages env u s)) = catalog s"
  by (auto simp add: ingest_stages_unfold item_of_url_def split: sum.splits prod.splits)

lemma ingest_stages_returns:
  "ingest_stages env u s = (Inr it, s') \<Longrightarrow>
     item_of_url env u = Inr it \<and> add_item_to_catlog env it (catalog s) = (None, catalog s')"
  by (auto simp add: ingest_stages_unfold item_of_url_def split: sum.splits prod.splits option.splits)


lemma parse_report_file_unfold:
  "parse_report_file env url s =
     (case ingest_stages env url s of
        (Inl e, s') \<Rightarrow> (Inl e, s')
      | (Inr stac_item, s') \<Rightarrow>
          (Inr [(''stac_item_id'', item_id stac_item),
                (''detail'', ''STAC item added to the catalog successfully.'')], s'))"
  by (simp add: parse_report_file_def then_do_def returns_def split: prod.splits sum.splits)

lemma for_item_url_append:
  "for_item_url env (xs @ ys) s =
     (case for_item_url env xs s of
        (Inl e, s') \<Rightarrow> (Inl e, s')
      | (Inr _, s') \<Rightarrow> for_item_url env ys s')"
  by (induction xs arbitrary: s) (simp_all split: prod.splits sum.splits)

lemma for_item_url_fails_iff:
  "isl (fst (for_item_url env us s)) \<longleftrightarrow>
     (\<exists>before u rest s1. us = before @ u # rest
        \<and> for_item_url env before s = (Inr (), s1)
        \<and> isl (fst (ingest_stages env u s1)))"
proof (induction us arbitrary: s)
  case Nil
  show ?case by simp
next
  case (Cons a us)
  obtain r s' where step: "ingest_stages env a s = (r, s')"
    by (cases "ingest_stages env a s")
  show ?case
  proof (cases r)
    case (Inl e)
    have "a # us = [] @ a # us \<and> for_item_url env [] s = (Inr (), s)
            \<and> isl (fst (ingest_stages env a s))"
      using Inl step by simp
    then have "\<exists>before u rest s1. a # us = before @ u # rest
        \<and> for_item_url env before s = (Inr (), s1)
        \<and> isl (fst (ingest_stages env u s1))" by blast
    then show ?thesis using Inl step by simp
  next
    case (Inr it)
    have loop: "for_item_url env (a # us) s = for_item_url env us s'"
      using Inr step by simp
    show ?thesis
    proof
      assume "isl (fst (for_item_url env (a # us) s))"
      then have "isl (fst (for_item_url env us s'))" using loop by simp
      then obtain before u rest s1 where d: "us = before @ u # rest"
        "for_item_url env before s' = (Inr (), s1)" "isl (fst (ingest_stages env u s1))"
        using Cons.IH [of s'] by blast
      have "a # us = (a # before) @ u # rest" using d(1) by simp
      moreover have "for_item_url env (a # before) s = (Inr (), s1)"
        using d(2) Inr step by simp
      ultimately show "\<exists>before u rest s1. a # us = before @ u # rest
        \<and> for_item_url env before s = (Inr (), s1)
        \<and> isl (fst (ingest_stages env u s1))" using d(3) by blast
    next
      assume "\<exists>before u rest s1. a # us = before @ u # rest
        \<and> for_item_url env before s = (Inr (), s1)
        \<and> isl (fst (ingest_stages env u s1))"
      then obtain before u rest s1 where d: "a # us = before @ u # rest"
        "for_item_url env before s = (Inr (), s1)" "isl (fst (ingest_stages env u s1))"
        by blast
      show "isl (fst (for_item_url env (a # us) s))"
      proof (cases before)
        case Nil
        then have "u = a" "s1 = s" using d by simp_all
        then show ?thesis using d(3) Inr step by simp
      next
        case (Cons b before')
        then have "b = a" "us = before' @ u # rest" using d(1) by simp_all
        moreover have "for_item_url env before' s' = (Inr (), s1)"
          using d(2) Cons \<open>b = a\<close> Inr step by simp
        ultimately have "isl (fst (for_item_url env us s'))"
          using Cons.IH [of s'] d(3) by blast
        then show ?thesis using loop by simp
      qed
    qed
  qed
qed

lemma for_item_url_all_made:
  "for_item_url env us s = (Inr (), s1) \<Longrightarrow> length (items_made env us) = length us"
proof (induction us arbitrary: s)
  case Nil
  show ?case by (simp add: items_made_def)
next
  case (Cons u us)
  obtain r s' where step: "ingest_stages env u s = (r, s')"
    by (cases "ingest_stages env u s")
  show ?case
  proof (cases r)
    case (Inl e)
    then show ?thesis using Cons.prems step by simp
  next
    case (Inr it)
    have "item_of_url env u = Inr it"
      using ingest_stages_returns [of env u s it s'] step Inr by simp
    moreover have "length (items_made env us) = length us"
      using Cons.IH [of s'] Cons.prems step Inr by simp
    ultimately show ?thesis by (simp add: items_made_def)
  qed
qed

lemma ingest_stages_trace:
  "trace (snd (ingest_stages env u s)) = trace s @ stage_events env u"
  by (simp add: ingest_stages_unfold stage_events_def split: sum.splits prod.splits)

lemma ingest_stages_catalog:
  "catalog (snd (ingest_stages env u s)) = catalog_after env (items_made env [u]) (catalog s)"
  by (simp add: ingest_stages_unfold items_made_def item_of_url_def catalog_after_def
        split: sum.splits prod.splits)

lemma items_made_append: "items_made env (xs @ ys) = items_made env xs @ items_made env ys"
  by (simp add: items_made_def)

lemma catalog_after_append:
  "catalog_after env (xs @ ys) c = catalog_after env ys (catalog_after env xs c)"
  by (simp add: catalog_after_def)

lemma for_item_url_returned:
  "for_item_url env us s = (Inr (), s') \<Longrightarrow>
     trace s' = trace s @ concat (map (stage_events env) us)
     \<and> catalog s' = catalog_after env (items_made env us) (catalog s)"
proof (induction us arbitrary: s)
  case Nil
  then show ?case by (simp add: items_made_def catalog_after_def)
next
  case (Cons u us)
  obtain r s1 where step: "ingest_stages env u s = (r, s1)"
    by (cases "ingest_stages env u s")
  show ?case
  proof (cases r)
    case (Inl e)
    then show ?thesis using Cons.prems step by simp
  next
    case (Inr it)
    have rest: "for_item_url env us s1 = (Inr (), s')"
      using Cons.prems step Inr by simp
    have t1: "trace s1 = trace s @ stage_events env u"
      using ingest_stages_trace [of env u s] step by simp
    have c1: "catalog s1 = catalog_after env (items_made env [u]) (catalog s)"
      using ingest_stages_catalog [of env u s] step by simp
    have "items_made env (u # us) = items_made env [u] @ items_made env us"
      using items_made_append [of env "[u]" us] by simp
    then show ?thesis
      using Cons.IH [OF rest] t1 c1 by (simp add: catalog_after_append)
  qed
qed

lemma started_urls_stage_events: "started_urls (stage_events env u) = [u]"
  by (simp add: stage_events_def split: sum.splits)

lemma written_items_stage_events: "written_items (stage_events env u) = items_made env [u]"
  by (simp add: stage_events_def items_made_def item_of_url_def split: sum.splits)

lemma started_urls_all_events: "started_urls (concat (map (stage_events env) us)) = us"
  by (induction us) (simp_all add: started_urls_append started_urls_stage_events)

lemma written_items_all_events:
  "written_items (concat (map (stage_events env) us)) = items_made env us"
proof (induction us)
  case Nil
  show ?case by (simp add: items_made_def)
next
  case (Cons u us)
  have "items_made env (u # us) = items_made env [u] @ items_made env us"
    using items_made_append [of env "[u]" us] by simp
  then show ?case using Cons.IH
    by (simp add: written_items_append written_items_stage_events)
qed


lemma for_item_url_raised:
  assumes ok: "for_item_url env before s = (Inr (), s1)"
    and fails: "ingest_stages env bad s1 = (Inl e, s2)"
  shows "for_item_url env (before @ bad # rest) s = (Inl e, s2)
     \<and> trace s2 = trace s @ concat (map (stage_events env) (before @ [bad]))
     \<and> catalog s2 = catalog_after env (items_made env (before @ [bad])) (catalog s)"
proof -
  have run: "for_item_url env (before @ bad # rest) s = (Inl e, s2)"
    using ok fails by (simp add: for_item_url_append)
  have t1: "trace s1 = trace s @ concat (map (stage_events env) before)"
    and c1: "catalog s1 = catalog_after env (items_made env before) (catalog s)"
    using for_item_url_returned [OF ok] by simp_all
  have t2: "trace s2 = trace s1 @ stage_events env bad"
    using ingest_stages_trace [of env bad s1] fails by simp
  have c2: "catalog s2 = catalog_after env (items_made env [bad]) (catalog s1)"
    using ingest_stages_catalog [of env bad s1] fails by simp
  show ?thesis using run t1 t2 c1 c2
    by (simp add: items_made_append catalog_after_append)
qed

lemma ingest_stages_extends:
  "\<exists>evs. trace (snd (ingest_stages env u s)) = trace s @ evs \<and> list_all item_work evs"
  by (simp add: ingest_stages_unfold split: sum.splits prod.splits)

lemma for_item_url_extends:
  "\<exists>evs. trace (snd (for_item_url env us s)) = trace s @ evs \<and> list_all item_work evs"
proof (induction us arbitrary: s)
  case Nil
  show ?case by simp
next
  case (Cons u us)
  obtain r s' where step: "ingest_stages env u s = (r, s')"
    by (cases "ingest_stages env u s")
  obtain evs where evs: "trace s' = trace s @ evs" "list_all item_work evs"
    using ingest_stages_extends [of env u s] step by auto
  show ?case
  proof (cases r)
    case (Inl e)
    then show ?thesis using step evs by simp
  next
    case (Inr it)
    obtain evs' where evs': "trace (snd (for_item_url env us s')) = trace s' @ evs'"
      "list_all item_work evs'"
      using Cons.IH [of s'] by blast
    have "trace (snd (for_item_url env (u # us) s)) = trace s @ (evs @ evs')"
      using Inr step evs evs' by simp
    moreover have "list_all item_work (evs @ evs')" using evs evs' by simp
    ultimately show ?thesis by blast
  qed
qed

lemma process_archive_extends:
  "\<exists>evs. trace (snd (process_archive env url s)) =
            trace s @ Call_iter_urls_from_archive_page url # evs \<and> list_all item_work evs"
proof -
  let ?s0 = "log_event (Call_iter_urls_from_archive_page url) s"
  obtain us stop where listing: "iter_urls_from_archive_page env url = (us, stop)"
    by (cases "iter_urls_from_archive_page env url")
  have "snd (process_archive env url s) = snd (for_item_url env us ?s0)"
    using listing by (simp add: process_archive_def split: prod.splits sum.splits)
  then show ?thesis
    using for_item_url_extends [of env us ?s0] by (auto simp add: log_event_def)
qed

lemma post_parse_archive_unfold:
  "post_parse_archive env url s =
     ([(''detail'', ''Processing message archive '' @ url @ ''!'')],
      process_archive env url
        (log_event (Send_response [(''detail'', ''Processing message archive '' @ url @ ''!'')]) s))"
  by (simp add: post_parse_archive_def parse_report_archive_def split: prod.splits sum.splits)

lemma one_record_per_key:
  "distinct (map fst records) \<Longrightarrow> k \<in> fst ` set records \<Longrightarrow>
     length (records_with_id k records) = 1"
proof (induction records)
  case Nil
  then show ?case by simp
next
  case (Cons r records)
  show ?case
  proof (cases "fst r = k")
    case True
    then have "k \<notin> fst ` set records" using Cons.prems(1) by auto
    then have "filter (\<lambda>record. fst record = k) records = []"
      by (auto simp add: filter_empty_conv)
    then show ?thesis using True by (simp add: records_with_id_def)
  next
    case False
    then have "k \<in> fst ` set records" using Cons.prems(2) by auto
    then show ?thesis using Cons.IH Cons.prems(1) False by (simp add: records_with_id_def)
  qed
qed

lemma parse_report_file_returns:
  assumes "parse_report_file env url s = (Inr response, s')"
  shows "\<exists>stac_item. item_of_url env url = Inr stac_item
     \<and> add_item_to_catlog env stac_item (catalog s) = (None, catalog s')
     \<and> response = [(''stac_item_id'', item_id stac_item),
                    (''detail'', ''STAC item added to the catalog successfully.'')]"
proof -
  obtain r s1 where step: "ingest_stages env url s = (r, s1)"
    by (cases "ingest_stages env url s")
  show ?thesis
  proof (cases r)
    case (Inl e)
    then show ?thesis using assms step by (simp add: parse_report_file_unfold)
  next
    case (Inr it)
    then have "s1 = s'" "response = [(''stac_item_id'', item_id it),
                    (''detail'', ''STAC item added to the catalog successfully.'')]"
      using assms step by (simp_all add: parse_report_file_unfold)
    then show ?thesis using ingest_stages_returns [of env url s it s'] step Inr by simp
  qed
qed

subsection \<open>The small world, evaluated\<close>

lemma ex_item_a:
  "item_of_url ex_env ''x/a.dat'' = Inr \<lparr>item_id = ''a.dat'', properties = [(''source'', ''x/a.dat'')]\<rparr>"
  by (simp add: item_of_url_def ex_env_def ex_content_def ex_parse_def ex_convert_def basename_def)

lemma ex_item_bad: "item_of_url ex_env ''x/bad.dat'' = Inl MalformedReportError"
  by (simp add: item_of_url_def ex_env_def ex_content_def ex_parse_def ex_convert_def basename_def)

lemma ex_ingest_a:
  "ingest_stages ex_env ''x/a.dat'' s =
     (Inr \<lparr>item_id = ''a.dat'', properties = [(''source'', ''x/a.dat'')]\<rparr>,
      \<lparr>catalog = AList.update ''a.dat'' \<lparr>item_id = ''a.dat'', properties = [(''source'', ''x/a.dat'')]\<rparr> (catalog s),
       trace = trace s @
         [Call_get_filename_from_url ''x/a.dat'', Call_get_file_content ''x/a.dat'',
          Call_parse_temp_drop ''sonde a.dat'' ''a.dat'',
          Call_convert_dropsonde_to_stac_item ''a.dat'' ''x/a.dat'',
          Print ''STAC Item ID: a.dat'',
          Print ''STAC Item Properties: source: x/a.dat; '',
          Call_add_item_to_catlog \<lparr>item_id = ''a.dat'', properties = [(''source'', ''x/a.dat'')]\<rparr>]\<rparr>)"
  by (simp add: ingest_stages_unfold ex_env_def ex_content_def ex_parse_def ex_convert_def
        basename_def ex_str_def upsert_def)

lemma ex_ingest_bad:
  "ingest_stages ex_env ''x/bad.dat'' s =
     (Inl MalformedReportError,
      s\<lparr>trace := trace s @
         [Call_get_filename_from_url ''x/bad.dat'', Call_get_file_content ''x/bad.dat'',
          Call_parse_temp_drop ''garbage'' ''bad.dat'']\<rparr>)"
  by (simp add: ingest_stages_unfold ex_env_def ex_content_def ex_parse_def ex_convert_def
        basename_def ex_str_def upsert_def)



lemma ex_refusing_ingest_a:
  "ingest_stages ex_refusing_env ''x/a.dat'' s =
     (Inr \<lparr>item_id = ''a.dat'', properties = [(''source'', ''x/a.dat'')]\<rparr>,
      \<lparr>catalog = AList.update ''a.dat'' \<lparr>item_id = ''a.dat'', properties = [(''source'', ''x/a.dat'')]\<rparr> (catalog s),
       trace = trace s @
         [Call_get_filename_from_url ''x/a.dat'', Call_get_file_content ''x/a.dat'',
          Call_parse_temp_drop ''sonde a.dat'' ''a.dat'',
          Call_convert_dropsonde_to_stac_item ''a.dat'' ''x/a.dat'',
          Print ''STAC Item ID: a.dat'',
          Print ''STAC Item Properties: source: x/a.dat; '',
          Call_add_item_to_catlog \<lparr>item_id = ''a.dat'', properties = [(''source'', ''x/a.dat'')]\<rparr>]\<rparr>)"
  by (simp add: ingest_stages_unfold ex_refusing_env_def ex_env_def ex_content_def ex_parse_def
        ex_convert_def basename_def ex_str_def upsert_def)

lemma ex_refusing_ingest_b:
  "ingest_stages ex_refusing_env ''x/b.dat'' s =
     (Inl StorageError,
      \<lparr>catalog = catalog s,
       trace = trace s @
         [Call_get_filename_from_url ''x/b.dat'', Call_get_file_content ''x/b.dat'',
          Call_parse_temp_drop ''sonde b.dat'' ''b.dat'',
          Call_convert_dropsonde_to_stac_item ''b.dat'' ''x/b.dat'',
          Print ''STAC Item ID: b.dat'',
          Print ''STAC Item Properties: source: x/b.dat; '',
          Call_add_item_to_catlog \<lparr>item_id = ''b.dat'', properties = [(''source'', ''x/b.dat'')]\<rparr>]\<rparr>)"
  by (simp add: ingest_stages_unfold ex_refusing_env_def ex_env_def ex_content_def ex_parse_def
        ex_convert_def basename_def ex_str_def upsert_def)

lemma ex_refusing_item_b:
  "item_of_url ex_refusing_env ''x/b.dat'' = Inr \<lparr>item_id = ''b.dat'', properties = [(''source'', ''x/b.dat'')]\<rparr>"
  by (simp add: item_of_url_def ex_refusing_env_def ex_env_def ex_content_def ex_parse_def
        ex_convert_def basename_def)

lemma ex_refusing_item_a:
  "item_of_url ex_refusing_env ''x/a.dat'' = Inr \<lparr>item_id = ''a.dat'', properties = [(''source'', ''x/a.dat'')]\<rparr>"
  by (simp add: item_of_url_def ex_refusing_env_def ex_env_def ex_content_def ex_parse_def
        ex_convert_def basename_def)

lemma ex_mixed_run:
  "process_archive ex_env ''x/mixed'' ex_start =
     (Inl MalformedReportError,
      \<lparr>catalog = [(''a.dat'', \<lparr>item_id = ''a.dat'', properties = [(''source'', ''x/a.dat'')]\<rparr>)],
       trace =
         [Call_iter_urls_from_archive_page ''x/mixed'',
          Call_get_filename_from_url ''x/a.dat'', Call_get_file_content ''x/a.dat'',
          Call_parse_temp_drop ''sonde a.dat'' ''a.dat'',
          Call_convert_dropsonde_to_stac_item ''a.dat'' ''x/a.dat'',
          Print ''STAC Item ID: a.dat'',
          Print ''STAC Item Properties: source: x/a.dat; '',
          Call_add_item_to_catlog \<lparr>item_id = ''a.dat'', properties = [(''source'', ''x/a.dat'')]\<rparr>,
          Call_get_filename_from_url ''x/bad.dat'', Call_get_file_content ''x/bad.dat'',
          Call_parse_temp_drop ''garbage'' ''bad.dat'']\<rparr>)"
proof -
  have "iter_urls_from_archive_page ex_env ''x/mixed'' = ([''x/a.dat'', ''x/bad.dat'', ''x/c.dat''], None)"
    by (simp add: ex_env_def ex_listing_def)
  then show ?thesis
    by (simp add: process_archive_def log_event_def ex_start_def ex_ingest_a ex_ingest_bad)
qed


lemma ex_file_a:
  "parse_report_file ex_env ''x/a.dat'' s =
     (Inr [(''stac_item_id'', ''a.dat''),
           (''detail'', ''STAC item added to the catalog successfully.'')],
      snd (ingest_stages ex_env ''x/a.dat'' s))"
  by (simp add: parse_report_file_unfold ex_ingest_a)

subsection \<open>Archive ingestion\<close>

text \<open>
  Claim C7. When the listing resolves to no item URL, \<^verbatim>\<open>process_archive\<close> returns normally
  after the one call that resolved the listing: nothing is fetched, parsed, converted,
  printed or written, the catalog is the one it started with, and no exception is raised.
\<close>

theorem process_archive_empty_listing:
  assumes "iter_urls_from_archive_page env url = ([], None)"
  shows "process_archive env url s =
           (Inr (), s\<lparr>trace := trace s @ [Call_iter_urls_from_archive_page url]\<rparr>)"
  using assms by (simp add: process_archive_def log_event_def)

theorem process_archive_empty_listing_witness:
  "iter_urls_from_archive_page ex_env ''x/empty'' = ([], None)
   \<and> process_archive ex_env ''x/empty'' ex_start =
       (Inr (), \<lparr>catalog = [], trace = [Call_iter_urls_from_archive_page ''x/empty'']\<rparr>)"
proof -
  have listing: "iter_urls_from_archive_page ex_env ''x/empty'' = ([], None)"
    by (simp add: ex_env_def ex_listing_def)
  show ?thesis
    using listing process_archive_empty_listing [OF listing, of ex_start]
    by (simp add: ex_start_def)
qed

text \<open>
  Claim C1, as the specification states it: a failure of one item is captured into that
  item's outcome and the remaining item URLs are still processed, so that a listing of
  \<open>N\<close> URLs with exactly one malformed item gives \<open>N\<close> outcomes and \<open>N - 1\<close> new
  catalog records. The module has no \<^verbatim>\<open>try\<close> in the loop. On the listing \<^verbatim>\<open>x/mixed\<close>, three
  URLs of which the second is malformed, the run ends with the parser's exception, the
  third URL is never started, and one item has been written and the catalog holds one
  record, not two.
\<close>

theorem process_archive_isolation_counterexample:
  "fst (iter_urls_from_archive_page ex_env ''x/mixed'') = [''x/a.dat'', ''x/bad.dat'', ''x/c.dat'']
   \<and> item_of_url ex_env ''x/bad.dat'' = Inl MalformedReportError
   \<and> fst (process_archive ex_env ''x/mixed'' ex_start) = Inl MalformedReportError
   \<and> started_urls (trace (snd (process_archive ex_env ''x/mixed'' ex_start))) = [''x/a.dat'', ''x/bad.dat'']
   \<and> length (written_items (trace (snd (process_archive ex_env ''x/mixed'' ex_start)))) = 1
   \<and> length (catalog (snd (process_archive ex_env ''x/mixed'' ex_start))) = 1"
  by (simp add: ex_mixed_run ex_item_bad) (simp add: ex_env_def ex_listing_def)

text \<open>
  Claim C1, amended. The items are ingested in listing order and a failing stage is not
  captured: when the items before \<open>bad\<close> have all been ingested and a stage of \<open>bad\<close>
  raises, \<^verbatim>\<open>process_archive\<close> ends with that exception in the state the failing stage left.
  The events of the run are the listing call and then the stage events of the items up to
  \<open>bad\<close>, in listing order: \<open>bad\<close> is the last URL started and the URLs after it are never
  processed. Every item before \<open>bad\<close> has been made and handed to the catalog writer; the
  item of \<open>bad\<close> is handed to the writer as well exactly when it was made, that is, when the
  stage that fails is the write itself.
\<close>

theorem process_archive_stops_at_first_failure:
  assumes listing: "iter_urls_from_archive_page env url = (before @ bad # rest, stop)"
    and ok: "for_item_url env before (log_event (Call_iter_urls_from_archive_page url) s) = (Inr (), s1)"
    and fails: "ingest_stages env bad s1 = (Inl e, s2)"
  shows "process_archive env url s = (Inl e, s2)
     \<and> trace s2 = trace s @ Call_iter_urls_from_archive_page url
                     # concat (map (stage_events env) (before @ [bad]))
     \<and> started_urls (trace s2) = started_urls (trace s) @ before @ [bad]
     \<and> length (items_made env before) = length before
     \<and> written_items (trace s1) = written_items (trace s) @ items_made env before
     \<and> written_items (trace s2) =
         written_items (trace s) @ items_made env before
           @ (case item_of_url env bad of Inl _ \<Rightarrow> [] | Inr stac_item \<Rightarrow> [stac_item])"
proof -
  let ?s0 = "log_event (Call_iter_urls_from_archive_page url) s"
  have loop: "for_item_url env (before @ bad # rest) ?s0 = (Inl e, s2)"
    and t2: "trace s2 = trace ?s0 @ concat (map (stage_events env) (before @ [bad]))"
    using for_item_url_raised [OF ok fails, of rest] by simp_all
  have run: "process_archive env url s = (Inl e, s2)"
    using listing loop by (simp add: process_archive_def)
  have t1: "trace s1 = trace ?s0 @ concat (map (stage_events env) before)"
    using for_item_url_returned [OF ok] by simp
  have trace2: "trace s2 = trace s @ Call_iter_urls_from_archive_page url
                     # concat (map (stage_events env) (before @ [bad]))"
    using t2 by (simp add: log_event_def)
  have started: "started_urls (trace s2) = started_urls (trace s) @ before @ [bad]"
    unfolding trace2
    using started_urls_all_events [of env "before @ [bad]"]
    by (simp add: started_urls_append del: map_append concat_append)
  have count: "length (items_made env before) = length before"
    using ok by (rule for_item_url_all_made)
  have written1: "written_items (trace s1) = written_items (trace s) @ items_made env before"
    unfolding t1
    using written_items_all_events [of env before]
    by (simp add: written_items_append log_event_def)
  have written2: "written_items (trace s2) =
         written_items (trace s) @ items_made env (before @ [bad])"
    unfolding trace2
    using written_items_all_events [of env "before @ [bad]"]
    by (simp add: written_items_append del: map_append concat_append)
  have "items_made env (before @ [bad]) = items_made env before
           @ (case item_of_url env bad of Inl _ \<Rightarrow> [] | Inr stac_item \<Rightarrow> [stac_item])"
    by (simp add: items_made_def)
  then show ?thesis using run trace2 started count written1 written2 by simp
qed

theorem process_archive_stops_at_first_failure_witness:
  "fst (process_archive ex_env ''x/mixed'' ex_start) = Inl MalformedReportError
   \<and> started_urls (trace (snd (process_archive ex_env ''x/mixed'' ex_start))) = [''x/a.dat'', ''x/bad.dat'']
   \<and> written_items (trace (snd (process_archive ex_env ''x/mixed'' ex_start)))
       = [\<lparr>item_id = ''a.dat'', properties = [(''source'', ''x/a.dat'')]\<rparr>]
   \<and> fst (process_archive ex_refusing_env ''x/all'' ex_start) = Inl StorageError
   \<and> started_urls (trace (snd (process_archive ex_refusing_env ''x/all'' ex_start))) = [''x/a.dat'', ''x/b.dat'']
   \<and> written_items (trace (snd (process_archive ex_refusing_env ''x/all'' ex_start)))
       = [\<lparr>item_id = ''a.dat'', properties = [(''source'', ''x/a.dat'')]\<rparr>,
          \<lparr>item_id = ''b.dat'', properties = [(''source'', ''x/b.dat'')]\<rparr>]"
proof -
  let ?m0 = "log_event (Call_iter_urls_from_archive_page ''x/mixed'') ex_start"
  let ?m1 = "snd (ingest_stages ex_env ''x/a.dat'' ?m0)"
  let ?m2 = "snd (ingest_stages ex_env ''x/bad.dat'' ?m1)"
  have listing: "iter_urls_from_archive_page ex_env ''x/mixed'' = ([''x/a.dat''] @ ''x/bad.dat'' # [''x/c.dat''], None)"
    by (simp add: ex_env_def ex_listing_def)
  have ok: "for_item_url ex_env [''x/a.dat''] ?m0 = (Inr (), ?m1)"
    by (simp add: ex_ingest_a)
  have fails: "ingest_stages ex_env ''x/bad.dat'' ?m1 = (Inl MalformedReportError, ?m2)"
    by (simp add: ex_ingest_bad)
  have mixed: "process_archive ex_env ''x/mixed'' ex_start = (Inl MalformedReportError, ?m2)
     \<and> started_urls (trace ?m2) = [''x/a.dat'', ''x/bad.dat'']
     \<and> written_items (trace ?m2) = [\<lparr>item_id = ''a.dat'', properties = [(''source'', ''x/a.dat'')]\<rparr>]"
    using process_archive_stops_at_first_failure [OF listing ok fails]
    by (simp add: ex_start_def items_made_def ex_item_a ex_item_bad started_urls_append
          written_items_append started_urls_stage_events written_items_stage_events)
  let ?r0 = "log_event (Call_iter_urls_from_archive_page ''x/all'') ex_start"
  let ?r1 = "snd (ingest_stages ex_refusing_env ''x/a.dat'' ?r0)"
  let ?r2 = "snd (ingest_stages ex_refusing_env ''x/b.dat'' ?r1)"
  have listing': "iter_urls_from_archive_page ex_refusing_env ''x/all'' = ([''x/a.dat''] @ ''x/b.dat'' # [''x/c.dat''], None)"
    by (simp add: ex_refusing_env_def ex_env_def ex_listing_def)
  have ok': "for_item_url ex_refusing_env [''x/a.dat''] ?r0 = (Inr (), ?r1)"
    by (simp add: ex_refusing_ingest_a)
  have fails': "ingest_stages ex_refusing_env ''x/b.dat'' ?r1 = (Inl StorageError, ?r2)"
    by (simp add: ex_refusing_ingest_b)
  have refused: "process_archive ex_refusing_env ''x/all'' ex_start = (Inl StorageError, ?r2)
     \<and> started_urls (trace ?r2) = [''x/a.dat'', ''x/b.dat'']
     \<and> written_items (trace ?r2) = [\<lparr>item_id = ''a.dat'', properties = [(''source'', ''x/a.dat'')]\<rparr>,
          \<lparr>item_id = ''b.dat'', properties = [(''source'', ''x/b.dat'')]\<rparr>]"
    using process_archive_stops_at_first_failure [OF listing' ok' fails']
    by (simp add: ex_start_def items_made_def ex_refusing_item_a ex_refusing_item_b
          started_urls_append written_items_append started_urls_stage_events
          written_items_stage_events)
  show ?thesis using mixed refused by simp
qed

text \<open>
  Claim C2, as the specification states it: the archive operation fails as a whole only
  when the listing cannot be fetched or resolved, and once item URLs are discovered no
  per-item error makes it fail. On \<^verbatim>\<open>x/mixed\<close> the listing resolves to three URLs without
  error, and the operation as a whole still ends with an exception.
\<close>

theorem process_archive_whole_failure_counterexample:
  "iter_urls_from_archive_page ex_env ''x/mixed'' = ([''x/a.dat'', ''x/bad.dat'', ''x/c.dat''], None)
   \<and> isl (fst (process_archive ex_env ''x/mixed'' ex_start))"
  by (simp add: ex_mixed_run) (simp add: ex_env_def ex_listing_def)

text \<open>
  Claim C2, amended. \<^verbatim>\<open>process_archive\<close> fails as a whole exactly when the listing iterator
  raises or some item, reached after the items before it were ingested, fails in one of its
  stages: a per-item error does make the whole operation fail.
\<close>

theorem process_archive_fails_iff:
  assumes "iter_urls_from_archive_page env url = (item_urls, stop)"
  shows "isl (fst (process_archive env url s)) \<longleftrightarrow>
     stop \<noteq> None
     \<or> (\<exists>before u rest s1. item_urls = before @ u # rest
          \<and> for_item_url env before (log_event (Call_iter_urls_from_archive_page url) s) = (Inr (), s1)
          \<and> isl (fst (ingest_stages env u s1)))"
proof -
  let ?s0 = "log_event (Call_iter_urls_from_archive_page url) s"
  have "isl (fst (process_archive env url s)) \<longleftrightarrow>
          stop \<noteq> None \<or> isl (fst (for_item_url env item_urls ?s0))"
    using assms by (auto simp add: process_archive_def split: prod.splits sum.splits option.splits)
  then show ?thesis by (simp only: for_item_url_fails_iff [of env item_urls ?s0])
qed

theorem process_archive_fails_iff_witness:
  "isl (fst (process_archive ex_env ''x/mixed'' ex_start))
   \<and> \<not> isl (fst (process_archive ex_env ''x/empty'' ex_start))
   \<and> isl (fst (process_archive ex_env ''x/gone'' ex_start))"
proof -
  let ?s0 = "log_event (Call_iter_urls_from_archive_page ''x/mixed'') ex_start"
  have mixed: "iter_urls_from_archive_page ex_env ''x/mixed'' = ([''x/a.dat'', ''x/bad.dat'', ''x/c.dat''], None)"
    by (simp add: ex_env_def ex_listing_def)
  have empty: "iter_urls_from_archive_page ex_env ''x/empty'' = ([], None)"
    by (simp add: ex_env_def ex_listing_def)
  have gone: "iter_urls_from_archive_page ex_env ''x/gone'' = ([], Some FetchError)"
    by (simp add: ex_env_def ex_listing_def)
  have "[''x/a.dat'', ''x/bad.dat'', ''x/c.dat''] = [''x/a.dat''] @ ''x/bad.dat'' # [''x/c.dat'']
      \<and> for_item_url ex_env [''x/a.dat''] ?s0 = (Inr (), snd (ingest_stages ex_env ''x/a.dat'' ?s0))
      \<and> isl (fst (ingest_stages ex_env ''x/bad.dat'' (snd (ingest_stages ex_env ''x/a.dat'' ?s0))))"
    by (simp add: ex_ingest_a ex_ingest_bad)
  then have "\<exists>before u rest s1. [''x/a.dat'', ''x/bad.dat'', ''x/c.dat''] = before @ u # rest
          \<and> for_item_url ex_env before ?s0 = (Inr (), s1)
          \<and> isl (fst (ingest_stages ex_env u s1))"
    by blast
  then have 1: "isl (fst (process_archive ex_env ''x/mixed'' ex_start))"
    using process_archive_fails_iff [OF mixed, of ex_start] by simp
  have 2: "\<not> isl (fst (process_archive ex_env ''x/empty'' ex_start))"
    using process_archive_fails_iff [OF empty, of ex_start] by simp
  have 3: "isl (fst (process_archive ex_env ''x/gone'' ex_start))"
    using process_archive_fails_iff [OF gone, of ex_start] by simp
  show ?thesis using 1 2 3 by simp
qed




subsection \<open>Single-item ingestion\<close>

text \<open>
  Claim C3, as the specification states it: the stages run in the order fetch, parse,
  convert, write, the first failing stage short-circuits the rest, and its error is wrapped
  into a typed outcome that is returned to the caller instead of escaping as an exception.
  The route has no handler around its stages. For the malformed report \<^verbatim>\<open>x/bad.dat\<close> the
  route does not return: the parser's exception leaves it.
\<close>

theorem parse_report_file_raises_counterexample:
  "parse_report_file ex_env ''x/bad.dat'' ex_start =
     (Inl MalformedReportError,
      \<lparr>catalog = [],
       trace = [Call_get_filename_from_url ''x/bad.dat'', Call_get_file_content ''x/bad.dat'',
                Call_parse_temp_drop ''garbage'' ''bad.dat'']\<rparr>)"
  by (simp add: parse_report_file_unfold ex_ingest_bad ex_start_def)

text \<open>
  Claim C3, amended. The stages of \<^verbatim>\<open>POST /parse/file\<close> run in the order file name, fetch,
  parse, convert, write. The first stage that raises ends the route: no later stage is
  called, and the exception of that stage leaves the route as it is, not wrapped into a
  returned value. The route returns, with the identifier of the item, only when every
  stage has succeeded.
\<close>

theorem parse_report_file_stage_order:
  "(get_filename_from_url env url = Inl e \<longrightarrow>
      parse_report_file env url s =
        (Inl e, s\<lparr>trace := trace s @ [Call_get_filename_from_url url]\<rparr>))
   \<and> (get_filename_from_url env url = Inr filename \<and> get_file_content env url = Inl e \<longrightarrow>
      parse_report_file env url s =
        (Inl e, s\<lparr>trace := trace s @
           [Call_get_filename_from_url url, Call_get_file_content url]\<rparr>))
   \<and> (get_filename_from_url env url = Inr filename \<and> get_file_content env url = Inr file_content
        \<and> parse_temp_drop env file_content filename = Inl e \<longrightarrow>
      parse_report_file env url s =
        (Inl e, s\<lparr>trace := trace s @
           [Call_get_filename_from_url url, Call_get_file_content url,
            Call_parse_temp_drop file_content filename]\<rparr>))
   \<and> (get_filename_from_url env url = Inr filename \<and> get_file_content env url = Inr file_content
        \<and> parse_temp_drop env file_content filename = Inr dropsonde_report
        \<and> convert_dropsonde_to_stac_item env dropsonde_report url = Inl e \<longrightarrow>
      parse_report_file env url s =
        (Inl e, s\<lparr>trace := trace s @
           [Call_get_filename_from_url url, Call_get_file_content url,
            Call_parse_temp_drop file_content filename,
            Call_convert_dropsonde_to_stac_item dropsonde_report url]\<rparr>))
   \<and> (get_filename_from_url env url = Inr filename \<and> get_file_content env url = Inr file_content
        \<and> parse_temp_drop env file_content filename = Inr dropsonde_report
        \<and> convert_dropsonde_to_stac_item env dropsonde_report url = Inr stac_item
        \<and> add_item_to_catlog env stac_item (catalog s) = (Some e, catalog') \<longrightarrow>
      parse_report_file env url s =
        (Inl e, \<lparr>catalog = catalog', trace = trace s @
           [Call_get_filename_from_url url, Call_get_file_content url,
            Call_parse_temp_drop file_content filename,
            Call_convert_dropsonde_to_stac_item dropsonde_report url,
            Print (''STAC Item ID: '' @ item_id stac_item),
            Print (''STAC Item Properties: '' @ str_properties env (properties stac_item)),
            Call_add_item_to_catlog stac_item]\<rparr>))
   \<and> (get_filename_from_url env url = Inr filename \<and> get_file_content env url = Inr file_content
        \<and> parse_temp_drop env file_content filename = Inr dropsonde_report
        \<and> convert_dropsonde_to_stac_item env dropsonde_report url = Inr stac_item
        \<and> add_item_to_catlog env stac_item (catalog s) = (None, catalog') \<longrightarrow>
      parse_report_file env url s =
        (Inr [(''stac_item_id'', item_id stac_item),
              (''detail'', ''STAC item added to the catalog successfully.'')],
         \<lparr>catalog = catalog', trace = trace s @
           [Call_get_filename_from_url url, Call_get_file_content url,
            Call_parse_temp_drop file_content filename,
            Call_convert_dropsonde_to_stac_item dropsonde_report url,
            Print (''STAC Item ID: '' @ item_id stac_item),
            Print (''STAC Item Properties: '' @ str_properties env (properties stac_item)),
            Call_add_item_to_catlog stac_item]\<rparr>))"
  by (simp add: parse_report_file_unfold ingest_stages_unfold)

theorem parse_report_file_stage_order_witness:
  "fst (parse_report_file (ex_env\<lparr>get_filename_from_url := \<lambda>_. Inl FetchError\<rparr>) ''x/a.dat'' ex_start)
     = Inl FetchError
   \<and> parse_report_file ex_env ''x/gone.dat'' ex_start =
       (Inl FetchError,
        \<lparr>catalog = [], trace = [Call_get_filename_from_url ''x/gone.dat'',
                                Call_get_file_content ''x/gone.dat'']\<rparr>)
   \<and> parse_report_file ex_env ''x/bad.dat'' ex_start =
       (Inl MalformedReportError,
        \<lparr>catalog = [], trace = [Call_get_filename_from_url ''x/bad.dat'',
                                Call_get_file_content ''x/bad.dat'',
                                Call_parse_temp_drop ''garbage'' ''bad.dat'']\<rparr>)
   \<and> fst (parse_report_file (ex_env\<lparr>convert_dropsonde_to_stac_item := \<lambda>_ _. Inl ConversionError\<rparr>)
            ''x/a.dat'' ex_start) = Inl ConversionError
   \<and> fst (parse_report_file (ex_env\<lparr>add_item_to_catlog := upsert (\<lambda>_ _. Some StorageError)\<rparr>)
            ''x/a.dat'' ex_start) = Inl StorageError
   \<and> fst (parse_report_file ex_env ''x/a.dat'' ex_start) =
       Inr [(''stac_item_id'', ''a.dat''),
            (''detail'', ''STAC item added to the catalog successfully.'')]"
proof -
  let ?item = "\<lparr>item_id = ''a.dat'', properties = [(''source'', ''x/a.dat'')]\<rparr>"
  let ?env1 = "ex_env\<lparr>get_filename_from_url := \<lambda>_. Inl FetchError\<rparr>"
  let ?env4 = "ex_env\<lparr>convert_dropsonde_to_stac_item := \<lambda>_ _. Inl ConversionError\<rparr>"
  let ?env5 = "ex_env\<lparr>add_item_to_catlog := upsert (\<lambda>_ _. Some StorageError)\<rparr>"
  have 1: "fst (parse_report_file ?env1 ''x/a.dat'' ex_start) = Inl FetchError"
    using parse_report_file_stage_order [of ?env1 "''x/a.dat''" FetchError ex_start]
    by simp
  have 2: "parse_report_file ex_env ''x/gone.dat'' ex_start =
       (Inl FetchError,
        \<lparr>catalog = [], trace = [Call_get_filename_from_url ''x/gone.dat'',
                                Call_get_file_content ''x/gone.dat'']\<rparr>)"
    using parse_report_file_stage_order [of ex_env "''x/gone.dat''" FetchError ex_start "''gone.dat''"]
    by (simp add: ex_env_def ex_content_def basename_def ex_start_def)
  have 3: "parse_report_file ex_env ''x/bad.dat'' ex_start =
       (Inl MalformedReportError,
        \<lparr>catalog = [], trace = [Call_get_filename_from_url ''x/bad.dat'',
                                Call_get_file_content ''x/bad.dat'',
                                Call_parse_temp_drop ''garbage'' ''bad.dat'']\<rparr>)"
    using parse_report_file_stage_order [of ex_env "''x/bad.dat''" MalformedReportError ex_start
        "''bad.dat''" "''garbage''"]
    by (simp add: ex_env_def ex_content_def ex_parse_def basename_def ex_start_def)
  have 4: "fst (parse_report_file ?env4 ''x/a.dat'' ex_start) = Inl ConversionError"
    using parse_report_file_stage_order [of ?env4 "''x/a.dat''" ConversionError ex_start
        "''a.dat''" "''sonde a.dat''" "''a.dat''"]
    by (simp add: ex_env_def ex_content_def ex_parse_def basename_def)
  have 5: "fst (parse_report_file ?env5 ''x/a.dat'' ex_start) = Inl StorageError"
    using parse_report_file_stage_order [of ?env5 "''x/a.dat''" StorageError ex_start
        "''a.dat''" "''sonde a.dat''" "''a.dat''" ?item "[]"]
    by (simp add: ex_env_def ex_content_def ex_parse_def ex_convert_def basename_def upsert_def
          ex_start_def)
  have 6: "fst (parse_report_file ex_env ''x/a.dat'' ex_start) =
       Inr [(''stac_item_id'', ''a.dat''),
            (''detail'', ''STAC item added to the catalog successfully.'')]"
    using parse_report_file_stage_order [of ex_env "''x/a.dat''" StorageError ex_start
        "''a.dat''" "''sonde a.dat''" "''a.dat''" ?item "[(''a.dat'', ?item)]"]
    by (simp add: ex_env_def ex_content_def ex_parse_def ex_convert_def basename_def upsert_def
          ex_start_def)
  show ?thesis using 1 2 3 4 5 6 by simp
qed

text \<open>
  Claim C4. When a stage before the catalog write fails, the route ends with that
  exception, the catalog is the one before the call and the catalog writer has not been
  called. Whenever the catalog writer is called, file name, content, report and item have
  all been obtained, and the writer is called once, with that item.
\<close>

theorem parse_report_file_no_partial_write:
  "(item_of_url env url = Inl e \<longrightarrow>
      fst (parse_report_file env url s) = Inl e
      \<and> catalog (snd (parse_report_file env url s)) = catalog s
      \<and> written_items (trace (snd (parse_report_file env url s))) = written_items (trace s))
   \<and> (written_items (trace (snd (parse_report_file env url s))) \<noteq> written_items (trace s) \<longrightarrow>
      (\<exists>filename file_content dropsonde_report stac_item.
         get_filename_from_url env url = Inr filename
         \<and> get_file_content env url = Inr file_content
         \<and> parse_temp_drop env file_content filename = Inr dropsonde_report
         \<and> convert_dropsonde_to_stac_item env dropsonde_report url = Inr stac_item
         \<and> written_items (trace (snd (parse_report_file env url s)))
             = written_items (trace s) @ [stac_item]))"
proof -
  have snd_eq: "snd (parse_report_file env url s) = snd (ingest_stages env url s)"
    by (simp add: parse_report_file_unfold split: prod.splits sum.splits)
  have fst_eq: "\<And>e. fst (ingest_stages env url s) = Inl e \<Longrightarrow> fst (parse_report_file env url s) = Inl e"
    by (cases "ingest_stages env url s") (auto simp add: parse_report_file_unfold split: sum.splits)
  have written: "written_items (trace (snd (parse_report_file env url s))) =
     written_items (trace s) @ (case item_of_url env url of Inl e \<Rightarrow> [] | Inr it \<Rightarrow> [it])"
    using ingest_stages_written [of env url s] snd_eq by simp
  have 1: "item_of_url env url = Inl e \<longrightarrow>
      fst (parse_report_file env url s) = Inl e
      \<and> catalog (snd (parse_report_file env url s)) = catalog s
      \<and> written_items (trace (snd (parse_report_file env url s))) = written_items (trace s)"
    using ingest_stages_item_fails [of env url e s] fst_eq snd_eq written by simp
  have 2: "written_items (trace (snd (parse_report_file env url s))) \<noteq> written_items (trace s) \<longrightarrow>
      (\<exists>filename file_content dropsonde_report stac_item.
         get_filename_from_url env url = Inr filename
         \<and> get_file_content env url = Inr file_content
         \<and> parse_temp_drop env file_content filename = Inr dropsonde_report
         \<and> convert_dropsonde_to_stac_item env dropsonde_report url = Inr stac_item
         \<and> written_items (trace (snd (parse_report_file env url s)))
             = written_items (trace s) @ [stac_item])"
    unfolding written by (auto simp add: item_of_url_def split: sum.splits)
  show ?thesis using 1 2 by blast
qed

theorem parse_report_file_no_partial_write_witness:
  "item_of_url ex_env ''x/bad.dat'' = Inl MalformedReportError
   \<and> fst (parse_report_file ex_env ''x/bad.dat'' ex_start) = Inl MalformedReportError
   \<and> catalog (snd (parse_report_file ex_env ''x/bad.dat'' ex_start)) = []
   \<and> written_items (trace (snd (parse_report_file ex_env ''x/bad.dat'' ex_start))) = []
   \<and> written_items (trace (snd (parse_report_file ex_env ''x/a.dat'' ex_start)))
       = [\<lparr>item_id = ''a.dat'', properties = [(''source'', ''x/a.dat'')]\<rparr>]
   \<and> convert_dropsonde_to_stac_item ex_env ''a.dat'' ''x/a.dat''
       = Inr \<lparr>item_id = ''a.dat'', properties = [(''source'', ''x/a.dat'')]\<rparr>"
proof -
  have bad: "fst (parse_report_file ex_env ''x/bad.dat'' ex_start) = Inl MalformedReportError
      \<and> catalog (snd (parse_report_file ex_env ''x/bad.dat'' ex_start)) = catalog ex_start
      \<and> written_items (trace (snd (parse_report_file ex_env ''x/bad.dat'' ex_start)))
          = written_items (trace ex_start)"
    using parse_report_file_no_partial_write [of ex_env "''x/bad.dat''" MalformedReportError ex_start]
      ex_item_bad by blast
  have a: "written_items (trace (snd (parse_report_file ex_env ''x/a.dat'' ex_start)))
      \<noteq> written_items (trace ex_start)"
    by (simp add: parse_report_file_unfold ex_ingest_a ex_start_def written_items_append)
  have "\<exists>filename file_content dropsonde_report stac_item.
         get_filename_from_url ex_env ''x/a.dat'' = Inr filename
         \<and> get_file_content ex_env ''x/a.dat'' = Inr file_content
         \<and> parse_temp_drop ex_env file_content filename = Inr dropsonde_report
         \<and> convert_dropsonde_to_stac_item ex_env dropsonde_report ''x/a.dat'' = Inr stac_item
         \<and> written_items (trace (snd (parse_report_file ex_env ''x/a.dat'' ex_start)))
             = written_items (trace ex_start) @ [stac_item]"
    using parse_report_file_no_partial_write [of ex_env "''x/a.dat''" MalformedReportError ex_start] a
    by blast
  then have good: "written_items (trace (snd (parse_report_file ex_env ''x/a.dat'' ex_start)))
       = [\<lparr>item_id = ''a.dat'', properties = [(''source'', ''x/a.dat'')]\<rparr>]"
    by (auto simp add: ex_start_def ex_env_def ex_convert_def ex_parse_def ex_content_def basename_def
          split: if_splits)
  show ?thesis using bad good ex_item_bad
    by (simp add: ex_start_def ex_env_def ex_convert_def)
qed

text \<open>
  Claim C8. With the catalog writer an upsert and a catalog that holds at most one record
  per identifier, two calls of \<^verbatim>\<open>POST /parse/file\<close> with the same URL, one after the other,
  that both return, return the same response with the same item identifier; the second
  call leaves the catalog as the first call left it, and the catalog holds exactly one
  record under that identifier.
\<close>

theorem parse_report_file_twice:
  assumes writer: "add_item_to_catlog env = upsert storage_fault"
    and wf: "distinct (map fst (catalog s))"
    and first: "parse_report_file env url s = (Inr response1, s1)"
    and second: "parse_report_file env url s1 = (Inr response2, s2)"
  shows "response2 = response1
     \<and> catalog s2 = catalog s1
     \<and> (\<exists>i. map_of response1 ''stac_item_id'' = Some i
           \<and> length (records_with_id i (catalog s2)) = 1)"
proof -
  obtain it1 where it1: "item_of_url env url = Inr it1"
    "add_item_to_catlog env it1 (catalog s) = (None, catalog s1)"
    "response1 = [(''stac_item_id'', item_id it1),
                  (''detail'', ''STAC item added to the catalog successfully.'')]"
    using parse_report_file_returns [OF first] by blast
  obtain it2 where it2: "item_of_url env url = Inr it2"
    "add_item_to_catlog env it2 (catalog s1) = (None, catalog s2)"
    "response2 = [(''stac_item_id'', item_id it2),
                  (''detail'', ''STAC item added to the catalog successfully.'')]"
    using parse_report_file_returns [OF second] by blast
  have same: "it2 = it1" using it1(1) it2(1) by simp
  have c1: "catalog s1 = AList.update (item_id it1) it1 (catalog s)"
    using it1(2) writer by (simp add: upsert_def split: option.splits)
  have c2: "catalog s2 = AList.update (item_id it1) it1 (catalog s1)"
    using it2(2) writer same by (simp add: upsert_def split: option.splits)
  have unchanged: "catalog s2 = catalog s1"
    using c1 c2 by simp
  have "distinct (map fst (catalog s1))"
    using wf c1 by (simp add: distinct_update)
  moreover have "item_id it1 \<in> fst ` set (catalog s1)"
    using c1 by (simp add: dom_update)
  ultimately have "length (records_with_id (item_id it1) (catalog s1)) = 1"
    by (rule one_record_per_key)
  then show ?thesis using same it1(3) it2(3) unchanged by simp
qed

theorem parse_report_file_twice_witness:
  "add_item_to_catlog ex_env = upsert (\<lambda>_ _. None)
   \<and> distinct (map fst (catalog ex_start))
   \<and> fst (parse_report_file ex_env ''x/a.dat'' ex_start)
       = fst (parse_report_file ex_env ''x/a.dat'' (snd (parse_report_file ex_env ''x/a.dat'' ex_start)))
   \<and> length (records_with_id ''a.dat''
        (catalog (snd (parse_report_file ex_env ''x/a.dat''
           (snd (parse_report_file ex_env ''x/a.dat'' ex_start)))))) = 1"
proof -
  let ?r = "[(''stac_item_id'', ''a.dat''),
             (''detail'', ''STAC item added to the catalog successfully.'')]"
  let ?s1 = "snd (ingest_stages ex_env ''x/a.dat'' ex_start)"
  let ?s2 = "snd (ingest_stages ex_env ''x/a.dat'' ?s1)"
  have writer: "add_item_to_catlog ex_env = upsert (\<lambda>_ _. None)"
    by (simp add: ex_env_def)
  have wf: "distinct (map fst (catalog ex_start))"
    by (simp add: ex_start_def)
  have first: "parse_report_file ex_env ''x/a.dat'' ex_start = (Inr ?r, ?s1)"
    by (rule ex_file_a)
  have second: "parse_report_file ex_env ''x/a.dat'' ?s1 = (Inr ?r, ?s2)"
    by (rule ex_file_a)
  have twice: "length (records_with_id ''a.dat'' (catalog ?s2)) = 1"
    using parse_report_file_twice [OF writer wf first second] by auto
  show ?thesis
    using twice writer wf by (simp add: ex_file_a)
qed

subsection \<open>The archive trigger\<close>

text \<open>
  Claim C5. The route \<^verbatim>\<open>POST /parse/archive\<close> only queues \<^verbatim>\<open>process_archive\<close> and returns its
  acknowledgment; the response has the single key \<^verbatim>\<open>detail\<close>, so it carries no per-item
  outcome; and in the events of the request the response comes first: the listing call and
  all the work on the items come after it.
\<close>

theorem parse_report_archive_answers_first:
  "parse_report_archive url background_tasks =
     ([(''detail'', ''Processing message archive '' @ url @ ''!'')],
      background_tasks @ [Process_archive url])
   \<and> map fst (fst (post_parse_archive env url s)) = [''detail'']
   \<and> (\<exists>work. trace (snd (snd (post_parse_archive env url s))) =
         trace s @ Send_response (fst (post_parse_archive env url s))
                 # Call_iter_urls_from_archive_page url # work
         \<and> list_all item_work work)"
proof -
  let ?ack = "[(''detail'', ''Processing message archive '' @ url @ ''!'')]"
  obtain work where "trace (snd (process_archive env url (log_event (Send_response ?ack) s))) =
        trace (log_event (Send_response ?ack) s) @ Call_iter_urls_from_archive_page url # work"
      "list_all item_work work"
    using process_archive_extends [of env url "log_event (Send_response ?ack) s"] by blast
  then show ?thesis
    by (simp add: post_parse_archive_unfold parse_report_archive_def log_event_def)
qed

theorem parse_report_archive_answers_first_witness:
  "parse_report_archive ''x/mixed'' [] =
     ([(''detail'', ''Processing message archive x/mixed!'')], [Process_archive ''x/mixed''])
   \<and> map fst (fst (post_parse_archive ex_env ''x/mixed'' ex_start)) = [''detail'']
   \<and> take 2 (trace (snd (snd (post_parse_archive ex_env ''x/mixed'' ex_start)))) =
       [Send_response (fst (post_parse_archive ex_env ''x/mixed'' ex_start)),
        Call_iter_urls_from_archive_page ''x/mixed'']"
  using parse_report_archive_answers_first [of "''x/mixed''" "[]" ex_env ex_start]
  by (auto simp add: ex_start_def)

text \<open>
  Claim C10. The route checks nothing about the URL: for every string, the response is the
  acknowledgment with that string put into the message as it is, whatever the collaborators
  do with it. What \<^verbatim>\<open>process_archive\<close> ends with, an exception included, is the result of
  the background task and no part of the response.
\<close>

theorem parse_report_archive_acknowledges_any_url:
  "fst (parse_report_archive url background_tasks) =
     [(''detail'', ''Processing message archive '' @ url @ ''!'')]
   \<and> fst (post_parse_archive env url s) =
     [(''detail'', ''Processing message archive '' @ url @ ''!'')]
   \<and> fst (snd (post_parse_archive env url s)) =
     fst (process_archive env url
       (log_event (Send_response [(''detail'', ''Processing message archive '' @ url @ ''!'')]) s))"
  by (simp add: post_parse_archive_unfold parse_report_archive_def)

theorem parse_report_archive_acknowledges_any_url_witness:
  "fst (post_parse_archive ex_env ''no such place'' ex_start) =
     [(''detail'', ''Processing message archive no such place!'')]
   \<and> fst (snd (post_parse_archive ex_env ''no such place'' ex_start)) = Inl FetchError"
  using parse_report_archive_acknowledges_any_url [of "''no such place''" "[]" ex_env ex_start]
  by (simp add: process_archive_def ex_env_def ex_listing_def)

end
